theory Spec2Isabelle
  imports Main "HOL-Library.Multiset"
begin

section \<open>Text: Python strings as lists of code points\<close>

text \<open>
  A Python \<open>str\<close> is a sequence of Unicode code points, and \<open>len\<close>, slicing and the
  \<open>re\<close> module all count code points. A text is therefore a list of code points
  (natural numbers); \<open>str\<close> turns a literal into such a list.

  The character tables of Python are exact here for the code points up to U+00FF. Above
  that range the whitespace table and the dash class of the source are exact as well,
  while decimal digits, word characters and case mappings beyond U+00FF are not part of
  the model: such a code point is no digit, no word character, and is its own lower case
  (also when a pattern ignores case).
\<close>

type_synonym uchar = nat
type_synonym ustr = "nat list"

definition str :: "string \<Rightarrow> ustr" where
  "str s = map of_char s"

definition py_isspace :: "uchar \<Rightarrow> bool" where
  \<comment> \<open>\<open>str.isspace\<close>, which is also what \<open>\s\<close> and \<open>str.strip()\<close> use.\<close>
  "py_isspace c =
     ((9 \<le> c \<and> c \<le> 13) \<or> (28 \<le> c \<and> c \<le> 32) \<or> c = 133 \<or> c = 160 \<or> c = 5760
      \<or> (8192 \<le> c \<and> c \<le> 8202) \<or> c = 8232 \<or> c = 8233 \<or> c = 8239 \<or> c = 8287
      \<or> c = 12288)"

definition py_isdecimal :: "uchar \<Rightarrow> bool" where
  \<comment> \<open>\<open>\d\<close>: the decimal digits \<open>0\<close> .. \<open>9\<close>.\<close>
  "py_isdecimal c = (48 \<le> c \<and> c \<le> 57)"

definition py_isword :: "uchar \<Rightarrow> bool" where
  \<comment> \<open>\<open>\w\<close>: alphanumeric or underscore.\<close>
  "py_isword c =
     ((48 \<le> c \<and> c \<le> 57) \<or> (65 \<le> c \<and> c \<le> 90) \<or> c = 95 \<or> (97 \<le> c \<and> c \<le> 122)
      \<or> c = 170 \<or> c = 178 \<or> c = 179 \<or> c = 181 \<or> c = 185 \<or> c = 186
      \<or> (188 \<le> c \<and> c \<le> 190) \<or> (192 \<le> c \<and> c \<le> 214) \<or> (216 \<le> c \<and> c \<le> 246)
      \<or> (248 \<le> c \<and> c \<le> 255))"

definition lower_cp :: "uchar \<Rightarrow> uchar" where
  "lower_cp c =
     (if (65 \<le> c \<and> c \<le> 90) \<or> (192 \<le> c \<and> c \<le> 214) \<or> (216 \<le> c \<and> c \<le> 222)
      then c + 32 else c)"

definition py_lower :: "ustr \<Rightarrow> ustr" where
  \<comment> \<open>\<open>text.lower()\<close>\<close>
  "py_lower s = map lower_cp s"

definition py_strip :: "ustr \<Rightarrow> ustr" where
  \<comment> \<open>\<open>text.strip()\<close>\<close>
  "py_strip s = rev (dropWhile py_isspace (rev (dropWhile py_isspace s)))"

definition py_remove :: "uchar \<Rightarrow> ustr \<Rightarrow> ustr" where
  \<comment> \<open>\<open>text.replace(c, '')\<close> for a single character \<open>c\<close>\<close>
  "py_remove c s = filter (\<lambda>x. x \<noteq> c) s"

fun py_startswith :: "ustr \<Rightarrow> ustr \<Rightarrow> bool" where
  "py_startswith [] s = True"
| "py_startswith (p # ps) [] = False"
| "py_startswith (p # ps) (c # cs) = (p = c \<and> py_startswith ps cs)"

definition py_endswith :: "ustr \<Rightarrow> ustr \<Rightarrow> bool" where
  "py_endswith p s = py_startswith (rev p) (rev s)"

fun py_in :: "ustr \<Rightarrow> ustr \<Rightarrow> bool" where
  \<comment> \<open>\<open>sub in s\<close> on strings\<close>
  "py_in sub [] = (sub = [])"
| "py_in sub (c # cs) = (py_startswith sub (c # cs) \<or> py_in sub cs)"

definition py_int :: "ustr \<Rightarrow> nat" where
  \<comment> \<open>\<open>int(n)\<close> on a token matched by \<open>\d+\<close>, which is a non-empty run of decimal
      digits, so that the conversion never raises.\<close>
  "py_int n = foldl (\<lambda>a c. 10 * a + (c - 48)) 0 n"

fun max_from :: "('a \<Rightarrow> nat) \<Rightarrow> 'a \<Rightarrow> 'a list \<Rightarrow> 'a" where
  "max_from key best [] = best"
| "max_from key best (x # xs) = max_from key (if key best < key x then x else best) xs"

definition py_max :: "('a \<Rightarrow> nat) \<Rightarrow> 'a list \<Rightarrow> 'a option" where
  \<comment> \<open>\<open>max(xs, key=key)\<close>: the first element with the greatest key; raises on \<open>[]\<close>.\<close>
  "py_max key xs = (case xs of [] \<Rightarrow> None | x # rest \<Rightarrow> Some (max_from key x rest))"


section \<open>Regular expressions with Python's backtracking order\<close>

text \<open>
  The patterns of the source are kept as syntax trees and run by a matcher that returns
  every way a pattern can match at a position as a list, in the order in which Python's
  backtracking engine tries them: the head of the list is the match Python reports.
  A match state is the text already consumed (reversed), the text still ahead, and the
  content of capture group 1.
\<close>

datatype regex =
    Eps
  | Cls "uchar \<Rightarrow> bool"
  | Seq regex regex
  | Alt regex regex
  | Star regex
  | Grp regex
  | Bol
  | Wordb

type_synonym mstate = "ustr \<times> ustr \<times> ustr option"

fun star_loop :: "(mstate \<Rightarrow> mstate list) \<Rightarrow> nat \<Rightarrow> mstate \<Rightarrow> mstate list" where
  \<comment> \<open>greedy repetition: one more round first, none last; a round must consume text, so
      the length of the text ahead bounds the number of rounds\<close>
  "star_loop body 0 s = [s]"
| "star_loop body (Suc n) s =
     concat (map (star_loop body n)
               (filter (\<lambda>s'. length (fst (snd s')) < length (fst (snd s))) (body s)))
     @ [s]"

definition at_boundary :: "ustr \<Rightarrow> ustr \<Rightarrow> bool" where
  \<comment> \<open>\<open>\b\<close>: exactly one of the neighbouring characters is a word character\<close>
  "at_boundary rb rest =
     ((case rb of [] \<Rightarrow> False | p # _ \<Rightarrow> py_isword p)
        \<noteq> (case rest of [] \<Rightarrow> False | c # _ \<Rightarrow> py_isword c))"

primrec rmatch :: "regex \<Rightarrow> mstate \<Rightarrow> mstate list" where
  "rmatch Eps = (\<lambda>s. [s])"
| "rmatch (Cls P) =
     (\<lambda>(rb, rest, g). case rest of [] \<Rightarrow> [] | c # cs \<Rightarrow> if P c then [(c # rb, cs, g)] else [])"
| "rmatch (Seq a b) = (\<lambda>s. concat (map (rmatch b) (rmatch a s)))"
| "rmatch (Alt a b) = (\<lambda>s. rmatch a s @ rmatch b s)"
| "rmatch (Star r) = (\<lambda>s. star_loop (rmatch r) (length (fst (snd s))) s)"
| "rmatch (Grp r) =
     (\<lambda>(rb, rest, g).
        map (\<lambda>(rb', rest', g'). (rb', rest', Some (rev (take (length rb' - length rb) rb'))))
            (rmatch r (rb, rest, g)))"
| "rmatch Bol = (\<lambda>(rb, rest, g). if rb = [] then [(rb, rest, g)] else [])"
| "rmatch Wordb = (\<lambda>(rb, rest, g). if at_boundary rb rest then [(rb, rest, g)] else [])"

fun search_from :: "regex \<Rightarrow> ustr \<Rightarrow> ustr \<Rightarrow> mstate option" where
  "search_from r rb [] = (case rmatch r (rb, [], None) of [] \<Rightarrow> None | m # _ \<Rightarrow> Some m)"
| "search_from r rb (c # cs) =
     (case rmatch r (rb, c # cs, None) of [] \<Rightarrow> search_from r (c # rb) cs | m # _ \<Rightarrow> Some m)"

definition re_search :: "regex \<Rightarrow> ustr \<Rightarrow> mstate option" where
  \<comment> \<open>\<open>re.search(pattern, text)\<close>: the leftmost match\<close>
  "re_search r text = search_from r [] text"

definition group1 :: "mstate \<Rightarrow> ustr" where
  \<comment> \<open>\<open>match.group(1)\<close>\<close>
  "group1 m = (case snd (snd m) of None \<Rightarrow> [] | Some x \<Rightarrow> x)"

function findall_from :: "regex \<Rightarrow> ustr \<Rightarrow> ustr \<Rightarrow> ustr list" where
  \<comment> \<open>the scan goes on where the last match ended; after a match that consumed
      nothing, and where nothing matches, it moves on by one character\<close>
  "findall_from r rb rest =
     (case rmatch r (rb, rest, None) of
        [] \<Rightarrow> (case rest of [] \<Rightarrow> [] | c # cs \<Rightarrow> findall_from r (c # rb) cs)
      | m # _ \<Rightarrow>
          group1 m #
          (if length (fst (snd m)) < length rest then findall_from r (fst m) (fst (snd m))
           else (case rest of [] \<Rightarrow> [] | c # cs \<Rightarrow> findall_from r (c # rb) cs)))"
  by pat_completeness auto
termination
  by (relation "measure (\<lambda>(r, rb, rest). length rest)") auto

definition re_findall :: "regex \<Rightarrow> ustr \<Rightarrow> ustr list" where
  \<comment> \<open>\<open>re.findall(pattern, text)\<close> for a pattern with one group: the group of every
      match, left to right, without overlap\<close>
  "re_findall r text = findall_from r [] text"

text \<open>Pattern syntax on top of the constructors.\<close>

definition Chr :: "char \<Rightarrow> regex" where
  "Chr c = Cls (\<lambda>x. x = of_char c)"

definition ChrI :: "char \<Rightarrow> regex" where
  \<comment> \<open>a literal under \<open>re.IGNORECASE\<close>\<close>
  "ChrI c = Cls (\<lambda>x. lower_cp x = lower_cp (of_char c))"

definition Lit :: "string \<Rightarrow> regex" where
  "Lit s = foldr (\<lambda>c r. Seq (Chr c) r) s Eps"

definition LitI :: "string \<Rightarrow> regex" where
  "LitI s = foldr (\<lambda>c r. Seq (ChrI c) r) s Eps"

definition Opt :: "regex \<Rightarrow> regex" where
  "Opt r = Alt r Eps"

definition Plus :: "regex \<Rightarrow> regex" where
  "Plus r = Seq r (Star r)"

fun Seqs :: "regex list \<Rightarrow> regex" where
  "Seqs [] = Eps"
| "Seqs [r] = r"
| "Seqs (r # rs) = Seq r (Seqs rs)"

fun Alts :: "regex list \<Rightarrow> regex" where
  "Alts [] = Eps"
| "Alts [r] = r"
| "Alts (r # rs) = Alt r (Alts rs)"

definition Space :: regex where
  "Space = Cls py_isspace"

definition Digit :: regex where
  "Digit = Cls py_isdecimal"

definition DigitDot :: regex where
  \<comment> \<open>\<open>[\d\.]\<close>\<close>
  "DigitDot = Cls (\<lambda>c. py_isdecimal c \<or> c = 46)"

definition Dash :: regex where
  \<comment> \<open>the class of hyphen-minus, U+2212 (minus sign) and U+2013 (en dash)\<close>
  "Dash = Cls (\<lambda>c. c = 45 \<or> c = 8722 \<or> c = 8211)"


section \<open>Numeric Normalizer\<close>

text \<open>
  \<open>extract_numeric_value\<close> is defined twice in \<open>financial_filing_parser.py\<close>; the
  second definition replaces the first when the module is loaded, and it is the one
  embedded here.
\<close>

definition pat_decimal :: regex where
  \<comment> \<open>\<open>([\d]+\.[\d]+)\<close>\<close>
  "pat_decimal = Grp (Seqs [Plus Digit, Chr CHR ''.'', Plus Digit])"

definition pat_minus :: regex where
  \<comment> \<open>\<open>^\s*[\-\u2212\u2013]\<close>: the class holds the hyphen-minus, the minus sign
      and the en dash\<close>
  "pat_minus = Seqs [Bol, Star Space, Dash]"

definition pat_open :: regex where
  \<comment> \<open>\<open>\(?([\d\.]+)\<close>\<close>
  "pat_open = Seqs [Opt (Chr CHR ''(''), Grp (Plus DigitDot)]"

definition pat_paren :: regex where
  \<comment> \<open>\<open>\(([\d\.]+)\)\<close>\<close>
  "pat_paren = Seqs [Chr CHR ''('', Grp (Plus DigitDot), Chr CHR '')'']"

definition pat_number :: regex where
  \<comment> \<open>\<open>([\d\.]+)\<close>\<close>
  "pat_number = Grp (Plus DigitDot)"

definition pat_int :: regex where
  \<comment> \<open>\<open>\b(\d+)\b\<close>\<close>
  "pat_int = Seqs [Wordb, Grp (Plus Digit), Wordb]"

definition open_unclosed :: "ustr \<Rightarrow> bool" where
  \<comment> \<open>\<open>cleaned_text.startswith('(') and not cleaned_text.endswith(')')\<close>\<close>
  "open_unclosed cleaned_text =
     (py_startswith (str ''('') cleaned_text \<and> \<not> py_endswith (str '')'') cleaned_text)"

definition negate :: "ustr \<Rightarrow> ustr" where
  \<comment> \<open>\<open>f"-{x}"\<close>\<close>
  "negate x = str ''-'' @ x"

definition clean_text :: "ustr \<Rightarrow> ustr" where
  \<comment> \<open>\<open>cleaned_text = text.replace('$', '').replace(',', '').strip()\<close>\<close>
  "clean_text text = py_strip (py_remove 44 (py_remove 36 text))"

definition int_matches :: "ustr \<Rightarrow> ustr list" where
  \<comment> \<open>\<open>int_matches = re.findall(r'\b(\d+)\b', cleaned_text)\<close>\<close>
  "int_matches cleaned_text = re_findall pat_int cleaned_text"

definition valid_ints :: "ustr \<Rightarrow> ustr list" where
  \<comment> \<open>\<open>valid_ints = [n for n in int_matches if len(n) > 2 or int(n) > 20]\<close>\<close>
  "valid_ints cleaned_text =
     filter (\<lambda>n. 2 < length n \<or> 20 < py_int n) (int_matches cleaned_text)"

definition integer_fallback :: "ustr \<Rightarrow> ustr option" where
  \<comment> \<open>the last block of \<open>extract_numeric_value\<close>: bare integers\<close>
  "integer_fallback cleaned_text =
     (if int_matches cleaned_text \<noteq> [] then
        (case valid_ints cleaned_text of
           v # _ \<Rightarrow> Some v
         | [] \<Rightarrow>
             (case py_max py_int (int_matches cleaned_text) of
                None \<Rightarrow> None
              | Some largest \<Rightarrow>
                  if length largest + 3 < length cleaned_text then Some largest else None))
      else None)"

definition negative_forms :: "ustr \<Rightarrow> ustr option" where
  \<comment> \<open>the three blocks that return a negated number when no decimal token exists\<close>
  "negative_forms cleaned_text =
     (case (if open_unclosed cleaned_text then re_search pat_open cleaned_text else None) of
        Some m \<Rightarrow> Some (negate (group1 m))
      | None \<Rightarrow>
     (case (if 40 \<in> set cleaned_text \<and> 41 \<in> set cleaned_text
            then re_search pat_paren cleaned_text else None) of
        Some m \<Rightarrow> Some (negate (group1 m))
      | None \<Rightarrow>
     (case (if re_search pat_minus cleaned_text \<noteq> None
            then re_search pat_number cleaned_text else None) of
        Some m \<Rightarrow> Some (negate (group1 m))
      | None \<Rightarrow> None)))"

definition extract_numeric_value :: "ustr \<Rightarrow> ustr option" where
  "extract_numeric_value text =
     (if text = [] then None
      else
        let cleaned_text = clean_text text in
        case re_search pat_decimal cleaned_text of
          Some decimal_match \<Rightarrow>
            (let d = group1 decimal_match in
             if py_in (str ''('' @ d @ str '')'') cleaned_text
                \<or> py_in (str ''( '' @ d @ str '' )'') cleaned_text
             then Some (negate d)
             else if re_search pat_minus cleaned_text \<noteq> None then Some (negate d)
             else if open_unclosed cleaned_text then Some (negate d)
             else Some d)
        | None \<Rightarrow>
            (case negative_forms cleaned_text of
               Some v \<Rightarrow> Some v
             | None \<Rightarrow>
                 if cleaned_text = str '')'' then None
                 else integer_fallback cleaned_text))"


section \<open>Label Classifier\<close>

definition AzSpaceI :: regex where
  \<comment> \<open>\<open>[a-z\s]\<close> under \<open>re.IGNORECASE\<close>\<close>
  "AzSpaceI = Cls (\<lambda>c. (97 \<le> lower_cp c \<and> lower_cp c \<le> 122) \<or> py_isspace c)"

definition share_kind :: regex where
  \<comment> \<open>\<open>(?:common|outstanding|ordinary)?\<close>\<close>
  "share_kind = Opt (Alts [LitI ''common'', LitI ''outstanding'', LitI ''ordinary''])"

definition basic_or_diluted :: regex where
  \<comment> \<open>\<open>(?:basic|diluted)?\<close>\<close>
  "basic_or_diluted = Opt (Alts [LitI ''basic'', LitI ''diluted''])"

definition pattern_0 :: regex where
  \<comment> \<open>\<open>(?:basic|diluted)?\s*earnings\s*(?:\(loss\))?\s*per\s*(?:common|outstanding|ordinary)?\s*share\<close>\<close>
  "pattern_0 =
     Seqs [basic_or_diluted, Star Space, LitI ''earnings'', Star Space, Opt (LitI ''(loss)''),
           Star Space, LitI ''per'', Star Space, share_kind, Star Space, LitI ''share'']"

definition pattern_1 :: regex where
  \<comment> \<open>\<open>(?:basic|diluted)?\s*loss\s*per\s*(?:common|outstanding|ordinary)?\s*share\<close>\<close>
  "pattern_1 =
     Seqs [basic_or_diluted, Star Space, LitI ''loss'', Star Space, LitI ''per'', Star Space,
           share_kind, Star Space, LitI ''share'']"

definition pattern_2 :: regex where
  \<comment> \<open>\<open>earnings\s*\(loss\)\s*per\s*(?:common|outstanding|ordinary)?\s*share\<close>\<close>
  "pattern_2 =
     Seqs [LitI ''earnings'', Star Space, LitI ''(loss)'', Star Space, LitI ''per'', Star Space,
           share_kind, Star Space, LitI ''share'']"

definition pattern_3 :: regex where
  \<comment> \<open>\<open>net\s*(?:income|loss|earnings)\s*(?:attributable\s*to\s*[a-z\s]+)?\s*per\s*share\<close>\<close>
  "pattern_3 =
     Seqs [LitI ''net'', Star Space, Alts [LitI ''income'', LitI ''loss'', LitI ''earnings''],
           Star Space,
           Opt (Seqs [LitI ''attributable'', Star Space, LitI ''to'', Star Space, Plus AzSpaceI]),
           Star Space, LitI ''per'', Star Space, LitI ''share'']"

definition pattern_4 :: regex where
  \<comment> \<open>\<open>income\s*\(loss\)\s*per\s*share\<close>\<close>
  "pattern_4 =
     Seqs [LitI ''income'', Star Space, LitI ''(loss)'', Star Space, LitI ''per'', Star Space,
           LitI ''share'']"

definition pattern_5 :: regex where
  \<comment> \<open>\<open>\beps\b\<close>\<close>
  "pattern_5 = Seqs [Wordb, LitI ''eps'', Wordb]"

definition pattern_6 :: regex where
  \<comment> \<open>\<open>earnings\s*per\s*share\<close>\<close>
  "pattern_6 = Seqs [LitI ''earnings'', Star Space, LitI ''per'', Star Space, LitI ''share'']"

definition pattern_7 :: regex where
  \<comment> \<open>\<open>net\s+income\s+available\s+to\s+common\s+stockholders\s+per\s+share\<close>\<close>
  "pattern_7 =
     Seqs [LitI ''net'', Plus Space, LitI ''income'', Plus Space, LitI ''available'', Plus Space,
           LitI ''to'', Plus Space, LitI ''common'', Plus Space, LitI ''stockholders'',
           Plus Space, LitI ''per'', Plus Space, LitI ''share'']"

definition pattern_8 :: regex where
  \<comment> \<open>\<open>net\s+income\s+per\s+common\s+share\<close>\<close>
  "pattern_8 =
     Seqs [LitI ''net'', Plus Space, LitI ''income'', Plus Space, LitI ''per'', Plus Space,
           LitI ''common'', Plus Space, LitI ''share'']"

definition pattern_9 :: regex where
  \<comment> \<open>\<open>net\s*(?:\(loss\)\s*income|income\s*\(loss\))\s*per\s*share\<close>\<close>
  "pattern_9 =
     Seqs [LitI ''net'', Star Space,
           Alts [Seqs [LitI ''(loss)'', Star Space, LitI ''income''],
                 Seqs [LitI ''income'', Star Space, LitI ''(loss)'']],
           Star Space, LitI ''per'', Star Space, LitI ''share'']"

definition patterns :: "regex list" where
  "patterns =
     [pattern_0, pattern_1, pattern_2, pattern_3, pattern_4, pattern_5, pattern_6, pattern_7,
      pattern_8, pattern_9]"

definition pat_exclude :: regex where
  \<comment> \<open>\<open>weighted|average|shares\s*outstanding\<close>, with \<open>re.IGNORECASE\<close>\<close>
  "pat_exclude =
     Alts [LitI ''weighted'', LitI ''average'',
           Seqs [LitI ''shares'', Star Space, LitI ''outstanding'']]"

fun check_patterns :: "regex list \<Rightarrow> ustr \<Rightarrow> bool" where
  \<comment> \<open>the \<open>for pattern in patterns\<close> loop\<close>
  "check_patterns [] text = False"
| "check_patterns (pattern # rest) text =
     (if re_search pattern text \<noteq> None then
        (if re_search pat_exclude text \<noteq> None then check_patterns rest text else True)
      else check_patterns rest text)"

definition check_eps_pattern :: "ustr \<Rightarrow> bool" where
  "check_eps_pattern text = check_patterns patterns (py_strip (py_lower text))"

definition pat_basic_word :: regex where
  \<comment> \<open>\<open>\bbasic\b\<close>\<close>
  "pat_basic_word = Seqs [Wordb, Lit ''basic'', Wordb]"

definition pat_diluted_word :: regex where
  \<comment> \<open>\<open>\bdiluted\b\<close>\<close>
  "pat_diluted_word = Seqs [Wordb, Lit ''diluted'', Wordb]"

definition and_or_amp :: regex where
  \<comment> \<open>\<open>(?:and|&)\<close>\<close>
  "and_or_amp = Alts [Lit ''and'', Lit ''&'']"

definition pat_basic_and_diluted :: regex where
  \<comment> \<open>\<open>basic\s+(?:and|&)\s+diluted\<close>\<close>
  "pat_basic_and_diluted = Seqs [Lit ''basic'', Plus Space, and_or_amp, Plus Space, Lit ''diluted'']"

definition pat_diluted_and_basic :: regex where
  \<comment> \<open>\<open>diluted\s+(?:and|&)\s+basic\<close>\<close>
  "pat_diluted_and_basic = Seqs [Lit ''diluted'', Plus Space, and_or_amp, Plus Space, Lit ''basic'']"

definition is_basic_eps :: "ustr \<Rightarrow> bool \<times> bool" where
  \<comment> \<open>The \<open>try\<close> block cannot raise on a string, so the \<open>except\<close> branch is not a
      branch of the model.\<close>
  "is_basic_eps text =
     (let text = py_lower text;
          has_basic = (re_search pat_basic_word text \<noteq> None);
          has_diluted = (re_search pat_diluted_word text \<noteq> None)
      in if re_search pat_basic_and_diluted text \<noteq> None
            \<or> re_search pat_diluted_and_basic text \<noteq> None
         then (True, True)
         else (has_basic, has_diluted))"

definition pat_non_gaap :: regex where
  \<comment> \<open>\<open>non-gaap|non\s*gaap|adjusted\<close>\<close>
  "pat_non_gaap =
     Alts [Lit ''non-gaap'', Seqs [Lit ''non'', Star Space, Lit ''gaap''], Lit ''adjusted'']"

definition is_gaap_eps :: "ustr \<Rightarrow> bool" where
  "is_gaap_eps text = (re_search pat_non_gaap (py_lower text) = None)"


section \<open>Candidate Selector\<close>

record candidate =
  cvalue :: ustr
  cbasic :: bool
  cdiluted :: bool
  cgaap :: bool

record occurrence =
  table_idx :: nat
  row_text :: ustr
  basic :: bool
  diluted :: bool
  gaap :: bool
  value_str :: ustr
  all_values :: "ustr list"

definition select_eps_value :: "candidate list \<Rightarrow> ustr \<Rightarrow> nat \<Rightarrow> occurrence option" where
  "select_eps_value row_values row_text_in table_idx_in =
     (case row_values of
        [] \<Rightarrow> None
      | first # _ \<Rightarrow>
          (let basic_values = filter cbasic row_values;
               selected_entry =
                 (case basic_values of
                    b # _ \<Rightarrow> b
                  | [] \<Rightarrow>
                      (let diluted_values = filter cdiluted row_values in
                       case diluted_values of d # _ \<Rightarrow> d | [] \<Rightarrow> first));
               value_list = map cvalue row_values
           in Some \<lparr> table_idx = table_idx_in,
                     row_text = take 100 row_text_in,
                     basic = cbasic selected_entry,
                     diluted = cdiluted selected_entry,
                     gaap = cgaap selected_entry,
                     value_str = cvalue selected_entry,
                     all_values = value_list \<rparr>))"


section \<open>Row-Pair Stitcher and Document Aggregator\<close>

text \<open>
  The HTML parser is outside the program: a document is what it hands over, the tables
  in order, each a list of rows, each row with the text of \<open>row.get_text()\<close> and the
  texts of its \<open>td\<close> cells.
\<close>

record row =
  get_text :: ustr
  cells :: "ustr list"

type_synonym table = "row list"
type_synonym document = "table list"

definition norm_row_text :: "row \<Rightarrow> ustr" where
  \<comment> \<open>\<open>row.get_text().lower().strip().replace(':', '')\<close>\<close>
  "norm_row_text r = py_remove 58 (py_strip (py_lower (get_text r)))"

definition make_candidate :: "bool \<Rightarrow> bool \<Rightarrow> bool \<Rightarrow> ustr \<Rightarrow> candidate" where
  "make_candidate b d g v = \<lparr> cvalue = v, cbasic = b, cdiluted = d, cgaap = g \<rparr>"

fun scan_cells ::
  "bool \<Rightarrow> bool \<Rightarrow> bool \<Rightarrow> ustr list \<Rightarrow> bool \<times> candidate list \<Rightarrow> bool \<times> candidate list" where
  \<comment> \<open>the \<open>for cell in cells\<close> loop, on the pair \<open>(found_value, row_values)\<close>\<close>
  "scan_cells b d g [] st = st"
| "scan_cells b d g (cell # rest) (found_value, row_values) =
     (case extract_numeric_value (py_strip cell) of
        Some v \<Rightarrow> scan_cells b d g rest (True, row_values @ [make_candidate b d g v])
      | None \<Rightarrow> scan_cells b d g rest (found_value, row_values))"

record stitch_state =
  st_i :: nat
  st_basic :: bool
  st_diluted :: bool
  st_gaap :: bool
  st_found_value :: bool
  st_row_values :: "candidate list"

function advance_rows :: "row list \<Rightarrow> stitch_state \<Rightarrow> stitch_state" where
  \<comment> \<open>the \<open>while (not found_value and i + 1 < len(rows))\<close> loop\<close>
  "advance_rows rows s =
     (if \<not> st_found_value s \<and> st_i s + 1 < length rows then
        (let next_row = rows ! (st_i s + 1);
             next_row_text = norm_row_text next_row;
             bd = (if \<not> (st_basic s \<and> st_diluted s) then is_basic_eps next_row_text
                   else (st_basic s, st_diluted s));
             g = is_gaap_eps next_row_text;
             fr = scan_cells (fst bd) (snd bd) g (cells next_row)
                    (st_found_value s, st_row_values s)
         in advance_rows rows
              \<lparr> st_i = st_i s + 1, st_basic = fst bd, st_diluted = snd bd, st_gaap = g,
                st_found_value = fst fr, st_row_values = snd fr \<rparr>)
      else s)"
  by pat_completeness auto
termination
  by (relation "measure (\<lambda>(rows, s). length rows - st_i s)") auto

definition stitch :: "row list \<Rightarrow> nat \<Rightarrow> stitch_state" where
  \<comment> \<open>what \<open>extract_eps_from_filing\<close> does for a label row \<open>i\<close>: classify it, scan its own
      cells, then advance\<close>
  "stitch rows i =
     (let row_text = norm_row_text (rows ! i);
          bd = is_basic_eps row_text;
          g = is_gaap_eps row_text;
          fr = scan_cells (fst bd) (snd bd) g (cells (rows ! i)) (False, [])
      in advance_rows rows
           \<lparr> st_i = i, st_basic = fst bd, st_diluted = snd bd, st_gaap = g,
             st_found_value = fst fr, st_row_values = snd fr \<rparr>)"

definition process_row :: "nat \<Rightarrow> row list \<Rightarrow> nat \<Rightarrow> occurrence option" where
  \<comment> \<open>the body of \<open>for i, row in enumerate(rows)\<close>\<close>
  "process_row tidx rows i =
     (let row_text = norm_row_text (rows ! i) in
      if check_eps_pattern row_text then
        (let row_values = st_row_values (stitch rows i) in
         if row_values \<noteq> [] then select_eps_value row_values row_text tidx else None)
      else None)"

definition scan_table :: "nat \<Rightarrow> row list \<Rightarrow> occurrence list" where
  "scan_table tidx rows = List.map_filter (process_row tidx rows) [0..<length rows]"

definition extract_eps_from_filing :: "document \<Rightarrow> occurrence list" where
  "extract_eps_from_filing tables =
     concat (map (\<lambda>(tidx, rows). scan_table tidx rows) (enumerate 0 tables))"


section \<open>Final EPS Resolver\<close>

text \<open>
  The resolver converts value strings with \<open>float\<close>, adds them with \<open>sum\<close> and prints
  the total with a format specification. Binary floating point is not modelled: these
  operations of the Python runtime are parameters of the resolver, over any type \<open>'f\<close>
  of float values.
\<close>

record 'f float_ops =
  float_parse :: "ustr \<Rightarrow> 'f option"    \<comment> \<open>\<open>float(s)\<close>; \<open>None\<close> is \<open>ValueError\<close>\<close>
  int_le_float :: "int \<Rightarrow> 'f \<Rightarrow> bool"     \<comment> \<open>\<open>n <= x\<close>\<close>
  float_le_int :: "'f \<Rightarrow> int \<Rightarrow> bool"     \<comment> \<open>\<open>x <= n\<close>\<close>
  float_sum :: "'f list \<Rightarrow> 'f"            \<comment> \<open>\<open>sum(xs)\<close>\<close>
  float_format :: "nat \<Rightarrow> 'f \<Rightarrow> ustr"      \<comment> \<open>\<open>f"{x:.{n}f}"\<close>\<close>

definition get_priority :: "'f float_ops \<Rightarrow> occurrence \<Rightarrow> int" where
  "get_priority F entry =
     (let priority = 0;
          priority = (if basic entry then priority + 100 else priority);
          priority = (if gaap entry then priority + 50 else priority);
          row_text_l = py_lower (row_text entry);
          priority = (if py_in (str ''basic'') row_text_l then priority + 30
                      else if py_in (str ''diluted'') row_text_l then priority + 20
                      else priority);
          priority = (case float_parse F (value_str entry) of
                        Some value_float \<Rightarrow>
                          if \<not> (int_le_float F (- 100) value_float
                                 \<and> float_le_int F value_float 100)
                          then priority - 1000 else priority
                      | None \<Rightarrow> priority)
      in priority)"








section \<open>Notions used to state the properties\<close>

definition parses_as_decimal :: "ustr \<Rightarrow> bool" where
  \<comment> \<open>a decimal number, optionally preceded by a single minus sign: digits with at most
      one decimal point and at least one digit\<close>
  "parses_as_decimal s =
     (let body = (case s of [] \<Rightarrow> [] | c # cs \<Rightarrow> if c = 45 then cs else s)
      in list_all (\<lambda>c. py_isdecimal c \<or> c = 46) body
         \<and> list_ex py_isdecimal body
         \<and> length (filter (\<lambda>c. c = 46) body) \<le> 1)"

definition preferred :: "candidate list \<Rightarrow> candidate" where
  \<comment> \<open>the first candidate flagged basic; if there is none, the first flagged diluted;
      otherwise the first candidate\<close>
  "preferred cs =
     (case find cbasic cs of
        Some c \<Rightarrow> c
      | None \<Rightarrow> (case find cdiluted cs of Some c \<Rightarrow> c | None \<Rightarrow> hd cs))"

definition numeric_cells :: "row \<Rightarrow> ustr list" where
  \<comment> \<open>the values that the cells of a row yield, in cell order\<close>
  "numeric_cells r = List.map_filter (\<lambda>cell. extract_numeric_value (py_strip cell)) (cells r)"

definition no_candidate :: "row \<Rightarrow> bool" where
  "no_candidate r = (numeric_cells r = [])"

definition carry_variant :: "bool \<times> bool \<Rightarrow> row \<Rightarrow> bool \<times> bool" where
  \<comment> \<open>basic/diluted on an advanced row: kept when both are already true, otherwise taken
      from the text of that row\<close>
  "carry_variant bd r = (if fst bd \<and> snd bd then bd else is_basic_eps (norm_row_text r))"

definition advanced :: "stitch_state \<Rightarrow> row list \<Rightarrow> stitch_state" where
  \<comment> \<open>The advancement as the specification words it, over the rows \<open>later\<close> that
      follow the current one. The rows without a candidate are passed over; the first row
      with a candidate is the target, its candidates are the result and nothing after it
      is scanned; if there is no such row the table is exhausted and the result is empty.
      Basic/diluted are carried through every row reached, gaap is that of the last row
      reached.\<close>
  "advanced s later =
     (case dropWhile no_candidate later of
        [] \<Rightarrow>
          (let bd = foldl carry_variant (st_basic s, st_diluted s) later
           in \<lparr> st_i = st_i s + length later, st_basic = fst bd, st_diluted = snd bd,
                st_gaap = (if later = [] then st_gaap s
                           else is_gaap_eps (norm_row_text (last later))),
                st_found_value = False, st_row_values = [] \<rparr>)
      | target # _ \<Rightarrow>
          (let skipped = takeWhile no_candidate later;
               bd = foldl carry_variant (st_basic s, st_diluted s) (skipped @ [target]);
               g = is_gaap_eps (norm_row_text target)
           in \<lparr> st_i = st_i s + length skipped + 1, st_basic = fst bd, st_diluted = snd bd,
                st_gaap = g, st_found_value = True,
                st_row_values = map (make_candidate (fst bd) (snd bd) g) (numeric_cells target) \<rparr>))"

definition stitch_spec :: "row list \<Rightarrow> nat \<Rightarrow> stitch_state" where
  \<comment> \<open>The Row-Pair Stitcher as the specification words it: a label row with candidates
      keeps them under its own classification, and a label row without candidates
      advances.\<close>
  "stitch_spec rows i =
     (let label = rows ! i;
          bd = is_basic_eps (norm_row_text label);
          g = is_gaap_eps (norm_row_text label)
      in if no_candidate label then
           advanced \<lparr> st_i = i, st_basic = fst bd, st_diluted = snd bd, st_gaap = g,
                      st_found_value = False, st_row_values = [] \<rparr>
                    (drop (i + 1) rows)
         else \<lparr> st_i = i, st_basic = fst bd, st_diluted = snd bd, st_gaap = g,
                st_found_value = True,
                st_row_values = map (make_candidate (fst bd) (snd bd) g) (numeric_cells label) \<rparr>)"

definition occurs_in :: "ustr \<Rightarrow> ustr \<Rightarrow> bool" where
  \<comment> \<open>\<open>w\<close> appears in \<open>s\<close>\<close>
  "occurs_in w s = (\<exists>a b. s = a @ w @ b)"



text \<open>Two small tables and a candidate list on which the properties are exercised.\<close>

definition label_then_value :: table where
  \<comment> \<open>a label row followed by a row whose only cell is \<open>$1.25\<close>\<close>
  "label_then_value =
     [\<lparr> get_text = str ''Basic earnings per share'',
        cells = [str ''Basic earnings per share''] \<rparr>,
      \<lparr> get_text = str ''$1.25'', cells = [str ''$1.25''] \<rparr>]"

definition label_gap_value :: table where
  \<comment> \<open>a combined label, a row without any number, and a row with the value\<close>
  "label_gap_value =
     [\<lparr> get_text = str ''Basic and diluted EPS:'', cells = [str ''Basic and diluted EPS:''] \<rparr>,
      \<lparr> get_text = str ''(adjusted)'', cells = [str ''(adjusted)''] \<rparr>,
      \<lparr> get_text = str ''diluted 0.50'', cells = [str ''diluted'', str ''0.50''] \<rparr>]"

definition three_candidates :: "candidate list" where
  "three_candidates =
     [\<lparr> cvalue = str ''1.10'', cbasic = False, cdiluted = False, cgaap = True \<rparr>,
      \<lparr> cvalue = str ''1.20'', cbasic = False, cdiluted = True, cgaap = True \<rparr>,
      \<lparr> cvalue = str ''1.30'', cbasic = True, cdiluted = False, cgaap = False \<rparr>]"


section \<open>Evaluation and matching lemmas\<close>

lemmas text_defs = str_def py_isspace_def py_isdecimal_def py_isword_def lower_cp_def py_lower_def
  py_strip_def py_remove_def py_endswith_def py_int_def py_max_def Let_def

lemmas regex_defs = at_boundary_def re_search_def group1_def re_findall_def Chr_def ChrI_def
  Lit_def LitI_def Opt_def Plus_def Space_def Digit_def DigitDot_def Dash_def

lemmas normalizer_defs = pat_decimal_def pat_minus_def pat_open_def pat_paren_def pat_number_def
  pat_int_def open_unclosed_def negate_def clean_text_def int_matches_def valid_ints_def
  integer_fallback_def negative_forms_def extract_numeric_value_def

lemmas classifier_defs = AzSpaceI_def share_kind_def basic_or_diluted_def pattern_0_def
  pattern_1_def pattern_2_def pattern_3_def pattern_4_def pattern_5_def pattern_6_def
  pattern_7_def pattern_8_def pattern_9_def patterns_def pat_exclude_def check_eps_pattern_def
  pat_basic_word_def pat_diluted_word_def and_or_amp_def pat_basic_and_diluted_def
  pat_diluted_and_basic_def is_basic_eps_def pat_non_gaap_def is_gaap_eps_def

text \<open>A match at some position of the text makes the search succeed.\<close>

lemma search_from_found:
  "rmatch r (rev pre @ rb, rest, None) \<noteq> [] \<Longrightarrow> search_from r rb (pre @ rest) \<noteq> None"
proof (induction pre arbitrary: rb)
  case Nil
  then show ?case by (cases rest) (auto split: list.splits)
next
  case (Cons p ps)
  from Cons.prems have "rmatch r (rev ps @ (p # rb), rest, None) \<noteq> []" by simp
  from Cons.IH [OF this] show ?case by (simp split: list.splits)
qed

lemma re_search_found:
  "rmatch r (rev pre, rest, None) \<noteq> [] \<Longrightarrow> re_search r (pre @ rest) \<noteq> None"
  using search_from_found [of r pre "[]" rest] by (simp add: re_search_def)

text \<open>Lower-casing and stripping keep a lower-case phrase that has no blank at its ends.\<close>

lemma py_lower_phrase:
  "py_lower w = w \<Longrightarrow> py_lower (pre @ w @ post) = py_lower pre @ w @ py_lower post"
  by (simp add: py_lower_def)

lemma dropWhile_keeps:
  "w \<noteq> [] \<Longrightarrow> \<not> P (hd w) \<Longrightarrow> \<exists>a. dropWhile P (pre @ w @ post) = a @ w @ post"
proof (induction pre)
  case Nil
  then show ?case by (cases w) auto
next
  case (Cons p ps)
  show ?case
  proof (cases "P p")
    case True
    with Cons show ?thesis by simp
  next
    case False
    then have "dropWhile P ((p # ps) @ w @ post) = (p # ps) @ w @ post" by simp
    then show ?thesis by blast
  qed
qed

lemma py_strip_keeps:
  assumes "w \<noteq> []" "\<not> py_isspace (hd w)" "\<not> py_isspace (last w)"
  shows "\<exists>a b. py_strip (pre @ w @ post) = a @ w @ b"
proof -
  obtain a where a: "dropWhile py_isspace (pre @ w @ post) = a @ w @ post"
    using dropWhile_keeps [where P = py_isspace and w = w and pre = pre and post = post] assms
    by blast
  have "rev w \<noteq> []" "\<not> py_isspace (hd (rev w))"
    using assms by (simp_all add: hd_rev)
  with dropWhile_keeps [where P = py_isspace and w = "rev w" and pre = "rev post"
      and post = "rev a"]
  obtain b where b: "dropWhile py_isspace (rev post @ rev w @ rev a) = b @ rev w @ rev a"
    by blast
  have "py_strip (pre @ w @ post) = a @ w @ rev b"
    by (simp add: py_strip_def a b)
  then show ?thesis by blast
qed


section \<open>Properties of the Numeric Normalizer\<close>

text \<open>
  The tokens that \<open>re.findall(r'\b(\d+)\b', ...)\<close> returns are non-empty runs of decimal
  digits, so \<open>int\<close> never raises on them.
\<close>

lemma star_loop_class:
  "m \<in> set (star_loop (rmatch (Cls P)) n (rb, rest, g)) \<Longrightarrow>
     \<exists>ds. fst m = rev ds @ rb \<and> list_all P ds \<and> snd (snd m) = g"
proof (induction n arbitrary: rb rest m)
  case 0
  then show ?case by auto
next
  case (Suc n)
  show ?case
  proof (cases rest)
    case Nil
    with Suc.prems show ?thesis by auto
  next
    case (Cons c cs)
    show ?thesis
    proof (cases "P c")
      case False
      with Suc.prems Cons show ?thesis by auto
    next
      case True
      with Suc.prems Cons
      consider "m = (rb, rest, g)" | "m \<in> set (star_loop (rmatch (Cls P)) n (c # rb, cs, g))"
        by auto
      then show ?thesis
      proof cases
        case 1
        then show ?thesis by auto
      next
        case 2
        from Suc.IH [OF 2] obtain ds where
          "fst m = rev ds @ c # rb" "list_all P ds" "snd (snd m) = g" by blast
        then have "fst m = rev (c # ds) @ rb \<and> list_all P (c # ds) \<and> snd (snd m) = g"
          using True by simp
        then show ?thesis by blast
      qed
    qed
  qed
qed

lemma plus_class:
  assumes "m \<in> set (rmatch (Plus (Cls P)) (rb, rest, g))"
  shows "\<exists>ds. ds \<noteq> [] \<and> fst m = rev ds @ rb \<and> list_all P ds"
proof (cases rest)
  case Nil
  with assms show ?thesis by (simp add: Plus_def)
next
  case (Cons c cs)
  show ?thesis
  proof (cases "P c")
    case False
    with assms Cons show ?thesis by (simp add: Plus_def)
  next
    case True
    with assms Cons
    have "m \<in> set (star_loop (rmatch (Cls P)) (length cs) (c # rb, cs, g))"
      by (simp add: Plus_def)
    from star_loop_class [OF this] obtain ds where
      "fst m = rev ds @ c # rb" "list_all P ds" by blast
    then have "c # ds \<noteq> [] \<and> fst m = rev (c # ds) @ rb \<and> list_all P (c # ds)"
      using True by simp
    then show ?thesis by blast
  qed
qed

lemma pat_int_group:
  assumes "m \<in> set (rmatch pat_int (rb, rest, g))"
  shows "group1 m \<noteq> [] \<and> list_all py_isdecimal (group1 m)"
proof -
  from assms obtain m' where
    m': "m' \<in> set (rmatch (Plus (Cls py_isdecimal)) (rb, rest, g))"
    and m: "snd (snd m) = Some (rev (take (length (fst m') - length rb) (fst m')))"
    by (auto simp: pat_int_def Digit_def split: if_splits)
  from plus_class [OF m'] obtain ds where
    ds: "ds \<noteq> []" "fst m' = rev ds @ rb" "list_all py_isdecimal ds" by blast
  have "group1 m = ds"
    using m ds by (simp add: group1_def)
  with ds show ?thesis by simp
qed

lemma findall_from_groups:
  "n \<in> set (findall_from r rb rest) \<Longrightarrow>
     \<exists>rb' rest' m. m \<in> set (rmatch r (rb', rest', None)) \<and> n = group1 m"
proof (induction r rb rest rule: findall_from.induct)
  case (1 r rb rest)
  note mem = "1.prems" [unfolded findall_from.simps [of r rb rest]]
  show ?case
  proof (cases "rmatch r (rb, rest, None)")
    case Nil
    show ?thesis
    proof (cases rest)
      case Nil2: Nil
      with Nil mem show ?thesis by (simp del: findall_from.simps)
    next
      case (Cons c cs)
      with Nil mem have "n \<in> set (findall_from r (c # rb) cs)"
        by (simp del: findall_from.simps)
      with "1.IH"(1) [OF Nil Cons] show ?thesis by blast
    qed
  next
    case (Cons m ms)
    have m: "m \<in> set (rmatch r (rb, rest, None))" using Cons by simp
    show ?thesis
    proof (cases "n = group1 m")
      case True
      with m show ?thesis by blast
    next
      case False
      show ?thesis
      proof (cases "length (fst (snd m)) < length rest")
        case True
        with Cons mem False have "n \<in> set (findall_from r (fst m) (fst (snd m)))"
          by (simp del: findall_from.simps)
        with "1.IH"(2) [OF Cons True] show ?thesis by blast
      next
        case nl: False
        show ?thesis
        proof (cases rest)
          case Nil
          with Cons mem False nl show ?thesis by (simp del: findall_from.simps)
        next
          case c: (Cons c cs)
          with Cons mem False nl have "n \<in> set (findall_from r (c # rb) cs)"
            by (simp del: findall_from.simps)
          with "1.IH"(3) [OF Cons nl c] show ?thesis by blast
        qed
      qed
    qed
  qed
qed

lemma int_matches_digits:
  assumes "n \<in> set (int_matches text)"
  shows "n \<noteq> [] \<and> list_all py_isdecimal n"
proof -
  from assms have "n \<in> set (findall_from pat_int [] text)"
    by (simp only: int_matches_def re_findall_def)
  from findall_from_groups [OF this] obtain rb' rest' m where
    "m \<in> set (rmatch pat_int (rb', rest', None))" "n = group1 m" by blast
  then show ?thesis using pat_int_group [of m rb' rest' None] by simp
qed


text \<open>
  C1. Claimed: whenever \<open>extract_numeric_value\<close> returns a value, the value parses as a
  decimal number, optionally preceded by a single minus sign. The code does not keep
  this: the blocks for negative numbers take any run of digits and dots, so the cell text
  \<open>(...)\<close> is returned as \<open>-...\<close> and \<open>-1..2\<close> is returned as it is.
\<close>

theorem normalizer_emits_dots:
  "extract_numeric_value (str ''(...)'') = Some (str ''-...'')
   \<and> \<not> parses_as_decimal (str ''-...'')
   \<and> extract_numeric_value (str ''-1..2'') = Some (str ''-1..2'')
   \<and> \<not> parses_as_decimal (str ''-1..2'')"
  by (simp add: text_defs regex_defs normalizer_defs parses_as_decimal_def)

lemma valid_ints_nil: "valid_ints [] = []"
  by (simp add: text_defs regex_defs normalizer_defs)

lemma valid_ints_close: "valid_ints (str '')'') = []"
  by (simp add: text_defs regex_defs normalizer_defs)

lemma clean_text_nil: "clean_text [] = []"
  by (simp add: clean_text_def py_strip_def py_remove_def)

text \<open>
  C2, as claimed: with several surviving integer tokens the largest is returned. On the
  text \<open>100 200\<close> there is no decimal token, no negative form and no leading dash, both
  tokens survive, and the first one is returned although the second is larger.
\<close>

theorem largest_integer_counterexample:
  "re_search pat_decimal (clean_text (str ''100 200'')) = None
   \<and> negative_forms (clean_text (str ''100 200'')) = None
   \<and> re_search pat_minus (clean_text (str ''100 200'')) = None
   \<and> valid_ints (clean_text (str ''100 200'')) = [str ''100'', str ''200'']
   \<and> py_int (str ''100'') < py_int (str ''200'')
   \<and> extract_numeric_value (str ''100 200'') = Some (str ''100'')"
  by (simp add: text_defs regex_defs normalizer_defs)

text \<open>
  C2, amended: for every text with no decimal token in which none of the three blocks
  for negative numbers returns, if at least one integer token survives the small-integer
  exclusion, then \<open>extract_numeric_value\<close> returns the first surviving token in text
  order.
\<close>

theorem first_surviving_integer:
  assumes "re_search pat_decimal (clean_text text) = None"
    and "negative_forms (clean_text text) = None"
    and "valid_ints (clean_text text) = v # vs"
  shows "extract_numeric_value text = Some v"
proof -
  have ne: "text \<noteq> []"
    using assms(3) valid_ints_nil clean_text_nil by auto
  have nc: "clean_text text \<noteq> str '')''"
    using assms(3) valid_ints_close by auto
  have im: "int_matches (clean_text text) \<noteq> []"
    using assms(3) by (auto simp: valid_ints_def)
  show ?thesis
    using ne nc im assms by (simp add: extract_numeric_value_def integer_fallback_def)
qed

theorem first_surviving_integer_witness:
  "re_search pat_decimal (clean_text (str ''100 200'')) = None
   \<and> negative_forms (clean_text (str ''100 200'')) = None
   \<and> valid_ints (clean_text (str ''100 200'')) = [str ''100'', str ''200'']
   \<and> extract_numeric_value (str ''100 200'') = Some (str ''100'')"
proof -
  have a: "re_search pat_decimal (clean_text (str ''100 200'')) = None"
    by (simp add: text_defs regex_defs normalizer_defs)
  have b: "negative_forms (clean_text (str ''100 200'')) = None"
    by (simp add: text_defs regex_defs normalizer_defs)
  have c: "valid_ints (clean_text (str ''100 200'')) = [str ''100'', str ''200'']"
    by (simp add: text_defs regex_defs normalizer_defs)
  from first_surviving_integer [OF a b c] a b c show ?thesis by simp
qed

text \<open>
  C3. The normalizer on the texts \<open>$(1,234.56)\<close>, \<open>1.23\<close>, \<open>(5\<close>, \<open>)\<close>, the empty
  text, and \<open>12\<close> (a bare two-digit integer with nothing around it).
\<close>

theorem normalizer_examples:
  "extract_numeric_value (str ''$(1,234.56)'') = Some (str ''-1234.56'')
   \<and> extract_numeric_value (str ''1.23'') = Some (str ''1.23'')
   \<and> extract_numeric_value (str ''(5'') = Some (str ''-5'')
   \<and> extract_numeric_value (str '')'') = None
   \<and> extract_numeric_value (str '''') = None
   \<and> extract_numeric_value (str ''12'') = None"
  by (simp add: text_defs regex_defs normalizer_defs)


section \<open>Properties of the Label Classifier\<close>

lemma check_patterns_excluded:
  "re_search pat_exclude text \<noteq> None \<Longrightarrow> check_patterns ps text = False"
  by (induction ps) auto

lemma exclude_weighted: "re_search pat_exclude (a @ str ''weighted'' @ b) \<noteq> None"
  by (rule re_search_found) (simp add: text_defs regex_defs pat_exclude_def)

lemma exclude_average: "re_search pat_exclude (a @ str ''average'' @ b) \<noteq> None"
  by (rule re_search_found) (simp add: text_defs regex_defs pat_exclude_def)

lemma exclude_shares: "re_search pat_exclude (a @ str ''shares outstanding'' @ b) \<noteq> None"
  by (rule re_search_found) (simp add: text_defs regex_defs pat_exclude_def)

lemma check_excluded:
  assumes w: "w \<noteq> []" "\<not> py_isspace (hd w)" "\<not> py_isspace (last w)" "py_lower w = w"
    and ex: "\<And>a b. re_search pat_exclude (a @ w @ b) \<noteq> None"
  shows "check_eps_pattern (pre @ w @ post) = False"
proof -
  have "py_lower (pre @ w @ post) = py_lower pre @ w @ py_lower post"
    using w(4) by (rule py_lower_phrase)
  moreover obtain a b where "py_strip (py_lower pre @ w @ py_lower post) = a @ w @ b"
    using py_strip_keeps [where w = w and pre = "py_lower pre" and post = "py_lower post"] w
    by blast
  ultimately show ?thesis
    unfolding check_eps_pattern_def by (simp add: check_patterns_excluded ex)
qed

lemma check_weighted: "check_eps_pattern (pre @ str ''weighted'' @ post) = False"
  by (rule check_excluded [OF _ _ _ _ exclude_weighted]) (simp_all add: text_defs)

lemma check_average: "check_eps_pattern (pre @ str ''average'' @ post) = False"
  by (rule check_excluded [OF _ _ _ _ exclude_average]) (simp_all add: text_defs)

lemma check_shares: "check_eps_pattern (pre @ str ''shares outstanding'' @ post) = False"
  by (rule check_excluded [OF _ _ _ _ exclude_shares]) (simp_all add: text_defs)

lemma check_diluted_earnings: "check_eps_pattern (str ''diluted earnings per share'')"
  by (simp add: text_defs regex_defs classifier_defs)

lemma check_basic_loss: "check_eps_pattern (str ''basic loss per common share'')"
  by (simp add: text_defs regex_defs classifier_defs)

text \<open>
  C4. \<open>check_eps_pattern\<close> is false on every text that contains \<open>weighted\<close>,
  \<open>average\<close> or \<open>shares outstanding\<close>, whatever stands before and after the phrase;
  it is true on \<open>diluted earnings per share\<close> and on \<open>basic loss per common share\<close>,
  and false on \<open>weighted average shares outstanding\<close>.
\<close>

theorem check_eps_pattern_exclusion:
  "check_eps_pattern (pre @ str ''weighted'' @ post) = False
   \<and> check_eps_pattern (pre @ str ''average'' @ post) = False
   \<and> check_eps_pattern (pre @ str ''shares outstanding'' @ post) = False
   \<and> check_eps_pattern (str ''diluted earnings per share'') = True
   \<and> check_eps_pattern (str ''weighted average shares outstanding'') = False
   \<and> check_eps_pattern (str ''basic loss per common share'') = True"
proof -
  have "str ''weighted average shares outstanding''
          = [] @ str ''weighted'' @ str '' average shares outstanding''"
    by (simp add: str_def)
  then have "check_eps_pattern (str ''weighted average shares outstanding'') = False"
    using check_weighted [of "[]" "str '' average shares outstanding''"] by simp
  then show ?thesis
    using check_weighted check_average check_shares check_diluted_earnings check_basic_loss
    by simp
qed

lemma combined_phrase_found:
  "re_search pat_basic_and_diluted (a @ str ''basic and diluted'' @ b) \<noteq> None"
  "re_search pat_basic_and_diluted (a @ str ''basic & diluted'' @ b) \<noteq> None"
  "re_search pat_diluted_and_basic (a @ str ''diluted and basic'' @ b) \<noteq> None"
  "re_search pat_diluted_and_basic (a @ str ''diluted & basic'' @ b) \<noteq> None"
  by (rule re_search_found,
      simp add: text_defs regex_defs and_or_amp_def pat_basic_and_diluted_def
        pat_diluted_and_basic_def)+

lemma is_basic_eps_forced:
  "re_search pat_basic_and_diluted (py_lower text) \<noteq> None
     \<or> re_search pat_diluted_and_basic (py_lower text) \<noteq> None
   \<Longrightarrow> is_basic_eps text = (True, True)"
  by (auto simp: is_basic_eps_def Let_def)

text \<open>
  C5. \<open>is_basic_eps\<close> answers \<open>(True, True)\<close> on every text that contains
  \<open>basic and diluted\<close>, \<open>diluted and basic\<close>, \<open>basic & diluted\<close> or
  \<open>diluted & basic\<close>; it answers \<open>(True, True)\<close> on \<open>basic and diluted eps\<close> and
  \<open>(False, True)\<close> on \<open>diluted eps\<close>.
\<close>

theorem is_basic_eps_combined:
  "is_basic_eps (pre @ str ''basic and diluted'' @ post) = (True, True)
   \<and> is_basic_eps (pre @ str ''diluted and basic'' @ post) = (True, True)
   \<and> is_basic_eps (pre @ str ''basic & diluted'' @ post) = (True, True)
   \<and> is_basic_eps (pre @ str ''diluted & basic'' @ post) = (True, True)
   \<and> is_basic_eps (str ''basic and diluted eps'') = (True, True)
   \<and> is_basic_eps (str ''diluted eps'') = (False, True)"
proof -
  have l: "py_lower (str ''basic and diluted'') = str ''basic and diluted''"
    "py_lower (str ''diluted and basic'') = str ''diluted and basic''"
    "py_lower (str ''basic & diluted'') = str ''basic & diluted''"
    "py_lower (str ''diluted & basic'') = str ''diluted & basic''"
    by (simp_all add: text_defs)
  have 1: "is_basic_eps (pre @ str ''basic and diluted'' @ post) = (True, True)"
    by (rule is_basic_eps_forced) (simp add: py_lower_phrase l combined_phrase_found)
  have 2: "is_basic_eps (pre @ str ''diluted and basic'' @ post) = (True, True)"
    by (rule is_basic_eps_forced) (simp add: py_lower_phrase l combined_phrase_found)
  have 3: "is_basic_eps (pre @ str ''basic & diluted'' @ post) = (True, True)"
    by (rule is_basic_eps_forced) (simp add: py_lower_phrase l combined_phrase_found)
  have 4: "is_basic_eps (pre @ str ''diluted & basic'' @ post) = (True, True)"
    by (rule is_basic_eps_forced) (simp add: py_lower_phrase l combined_phrase_found)
  have 5: "is_basic_eps (str ''basic and diluted eps'') = (True, True)"
    by (simp add: text_defs regex_defs classifier_defs)
  have 6: "is_basic_eps (str ''diluted eps'') = (False, True)"
    by (simp add: text_defs regex_defs classifier_defs)
  from 1 2 3 4 5 6 show ?thesis by blast
qed


theorem is_basic_eps_combined_witness:
  "is_basic_eps (str ''eps - '' @ str ''basic & diluted'' @ str '' (gaap)'') = (True, True)"
  using is_basic_eps_combined [of "str ''eps - ''" "str '' (gaap)''"] by blast


section \<open>Properties of the Candidate Selector\<close>

lemma filter_Nil_find: "filter P xs = [] \<Longrightarrow> find P xs = None"
  by (induction xs) (auto split: if_splits)

lemma filter_Cons_find: "filter P xs = y # ys \<Longrightarrow> find P xs = Some y"
  by (induction xs) (auto split: if_splits)

lemma selected_entry_preferred:
  "(case filter cbasic (first # rest) of
      b # _ \<Rightarrow> b
    | [] \<Rightarrow> (case filter cdiluted (first # rest) of d # _ \<Rightarrow> d | [] \<Rightarrow> first))
   = preferred (first # rest)"
proof (cases "filter cbasic (first # rest)")
  case (Cons b bs)
  then show ?thesis
    using filter_Cons_find [OF Cons] by (simp add: preferred_def)
next
  case Nil
  note nb = filter_Nil_find [OF Nil]
  show ?thesis
  proof (cases "filter cdiluted (first # rest)")
    case (Cons d ds)
    then show ?thesis
      using filter_Cons_find [OF Cons] nb Nil by (simp add: preferred_def)
  next
    case Nil2: Nil
    then show ?thesis
      using filter_Nil_find [OF Nil2] nb Nil by (simp add: preferred_def)
  qed
qed

lemma select_eps_value_eq:
  assumes "row_values \<noteq> []"
  shows "select_eps_value row_values rt ti =
           Some \<lparr> table_idx = ti, row_text = take 100 rt,
                  basic = cbasic (preferred row_values),
                  diluted = cdiluted (preferred row_values),
                  gaap = cgaap (preferred row_values),
                  value_str = cvalue (preferred row_values),
                  all_values = map cvalue row_values \<rparr>"
proof -
  obtain first rest where rv: "row_values = first # rest"
    using assms by (cases row_values) auto
  show ?thesis
    unfolding rv select_eps_value_def Let_def list.case
    by (simp only: selected_entry_preferred)
qed

lemma preferred_in_set: "cs \<noteq> [] \<Longrightarrow> preferred cs \<in> set cs"
  by (auto simp: preferred_def find_Some_iff split: option.splits)

text \<open>
  C7. For a non-empty candidate list, \<open>select_eps_value\<close> builds its entry from the
  preferred candidate (the first flagged basic, else the first flagged diluted, else the
  first one): value, basic, diluted and gaap are those of that candidate, \<open>all_values\<close>
  lists the value of every candidate in list order, and \<open>row_text\<close> is the first 100
  characters of the row text given.
\<close>

theorem select_eps_value_priority:
  assumes "row_values \<noteq> []"
  shows "select_eps_value row_values rt ti =
           Some \<lparr> table_idx = ti, row_text = take 100 rt,
                  basic = cbasic (preferred row_values),
                  diluted = cdiluted (preferred row_values),
                  gaap = cgaap (preferred row_values),
                  value_str = cvalue (preferred row_values),
                  all_values = map cvalue row_values \<rparr>"
  using assms by (rule select_eps_value_eq)

lemma preferred_three_candidates:
  "preferred three_candidates =
     \<lparr> cvalue = str ''1.30'', cbasic = True, cdiluted = False, cgaap = False \<rparr>"
  by (simp add: preferred_def three_candidates_def)

theorem select_eps_value_priority_witness:
  "three_candidates \<noteq> []
   \<and> select_eps_value three_candidates (str ''eps'') 0 =
       Some \<lparr> table_idx = 0, row_text = str ''eps'', basic = True, diluted = False,
              gaap = False, value_str = str ''1.30'',
              all_values = [str ''1.10'', str ''1.20'', str ''1.30''] \<rparr>"
proof -
  have ne: "three_candidates \<noteq> []" by (simp add: three_candidates_def)
  have "take 100 (str ''eps'') = str ''eps''" by (simp add: str_def)
  moreover have "map cvalue three_candidates = [str ''1.10'', str ''1.20'', str ''1.30'']"
    by (simp add: three_candidates_def)
  ultimately show ?thesis
    using select_eps_value_priority [OF ne, of "str ''eps''" 0] ne
    by (simp add: preferred_three_candidates)
qed


section \<open>Properties of the Row-Pair Stitcher and the Document Aggregator\<close>

declare advance_rows.simps [simp del]

lemmas stitch_defs = stitch_spec_def advanced_def no_candidate_def numeric_cells_def
  carry_variant_def norm_row_text_def make_candidate_def

lemma scan_cells_eq:
  "scan_cells b d g cs (f, rv) =
     (f \<or> List.map_filter (\<lambda>cell. extract_numeric_value (py_strip cell)) cs \<noteq> [],
      rv @ map (make_candidate b d g)
             (List.map_filter (\<lambda>cell. extract_numeric_value (py_strip cell)) cs))"
  by (induction cs arbitrary: f rv) (auto split: option.splits)

lemma scan_cells_row:
  "scan_cells b d g (cells r) (False, []) =
     (\<not> no_candidate r, map (make_candidate b d g) (numeric_cells r))"
  by (simp add: scan_cells_eq no_candidate_def numeric_cells_def)

lemma advance_rows_stop:
  "st_found_value s \<or> \<not> st_i s + 1 < length rows \<Longrightarrow> advance_rows rows s = s"
  by (subst advance_rows.simps) auto

lemma advance_rows_step:
  assumes "\<not> st_found_value s" "st_row_values s = []" "st_i s + 1 < length rows"
  shows "advance_rows rows s =
           advance_rows rows
             (let r = rows ! (st_i s + 1);
                  bd = carry_variant (st_basic s, st_diluted s) r;
                  g = is_gaap_eps (norm_row_text r)
              in \<lparr> st_i = st_i s + 1, st_basic = fst bd, st_diluted = snd bd, st_gaap = g,
                   st_found_value = \<not> no_candidate r,
                   st_row_values = map (make_candidate (fst bd) (snd bd) g) (numeric_cells r) \<rparr>)"
  using assms
  by (subst advance_rows.simps) (simp add: Let_def scan_cells_row carry_variant_def)

lemma advance_rows_later:
  assumes "\<not> st_found_value s" "st_row_values s = []" "length pre = st_i s + 1"
  shows "advance_rows (pre @ later) s = advanced s later"
  using assms
proof (induction later arbitrary: pre s)
  case Nil
  then show ?case
    by (simp add: advance_rows_stop advanced_def)
next
  case (Cons r rest)
  let ?bd = "carry_variant (st_basic s, st_diluted s) r"
  let ?g = "is_gaap_eps (norm_row_text r)"
  let ?s' = "\<lparr> st_i = st_i s + 1, st_basic = fst ?bd, st_diluted = snd ?bd, st_gaap = ?g,
               st_found_value = \<not> no_candidate r,
               st_row_values = map (make_candidate (fst ?bd) (snd ?bd) ?g) (numeric_cells r) \<rparr>"
  have r: "(pre @ r # rest) ! (st_i s + 1) = r"
    using Cons.prems(3) by (metis nth_append_length)
  have step: "advance_rows (pre @ r # rest) s = advance_rows (pre @ r # rest) ?s'"
    using advance_rows_step [of s "pre @ r # rest"] Cons.prems r by (simp add: Let_def)
  show ?case
  proof (cases "no_candidate r")
    case True
    then have nc: "numeric_cells r = []" by (simp add: no_candidate_def)
    have "advance_rows ((pre @ [r]) @ rest) ?s' = advanced ?s' rest"
      using Cons.prems True nc by (intro Cons.IH) simp_all
    moreover have "advanced ?s' rest = advanced s (r # rest)"
      using True
      by (auto simp: advanced_def Let_def dropWhile_eq_Nil_conv [symmetric]
            simp del: dropWhile_eq_Nil_conv split: list.split)
    ultimately show ?thesis using step by simp
  next
    case False
    then have "advance_rows (pre @ r # rest) ?s' = ?s'"
      by (simp add: advance_rows_stop)
    moreover have "advanced s (r # rest) = ?s'"
      using False by (simp add: advanced_def Let_def)
    ultimately show ?thesis using step by simp
  qed
qed

text \<open>
  C6. For a label row \<open>i\<close> of a table, the stitcher of the code does what the
  specification says. If the label row yields candidates, they are the result. If not,
  the scan advances over the later rows of the same table while no candidate has been
  found and rows remain: basic/diluted are taken from the text of an advanced row unless
  both are already true, gaap is taken afresh from every advanced row, and the first
  later row that yields a candidate ends the advancement, as does the end of the table.
\<close>

theorem stitch_advances:
  assumes "i < length rows"
  shows "stitch rows i = stitch_spec rows i"
proof -
  let ?label = "rows ! i"
  let ?bd = "is_basic_eps (norm_row_text ?label)"
  let ?g = "is_gaap_eps (norm_row_text ?label)"
  show ?thesis
  proof (cases "no_candidate ?label")
    case True
    let ?s = "\<lparr> st_i = i, st_basic = fst ?bd, st_diluted = snd ?bd, st_gaap = ?g,
                st_found_value = False, st_row_values = [] \<rparr>"
    have nc: "numeric_cells ?label = []" using True by (simp add: no_candidate_def)
    have "advance_rows (take (i + 1) rows @ drop (i + 1) rows) ?s
            = advanced ?s (drop (i + 1) rows)"
      using assms by (intro advance_rows_later) simp_all
    then show ?thesis
      using True nc by (simp add: stitch_def stitch_spec_def Let_def scan_cells_row)
  next
    case False
    then show ?thesis
      by (simp add: stitch_def stitch_spec_def Let_def scan_cells_row advance_rows_stop)
  qed
qed

lemma stitch_spec_label_gap_value:
  "stitch_spec label_gap_value 0 =
     \<lparr> st_i = 2, st_basic = True, st_diluted = True, st_gaap = True, st_found_value = True,
       st_row_values =
         [\<lparr> cvalue = str ''0.50'', cbasic = True, cdiluted = True, cgaap = True \<rparr>] \<rparr>"
  by (simp add: text_defs regex_defs normalizer_defs classifier_defs stitch_defs
        label_gap_value_def)

theorem stitch_advances_witness:
  "(0::nat) < length label_gap_value
   \<and> stitch label_gap_value 0 =
       \<lparr> st_i = 2, st_basic = True, st_diluted = True, st_gaap = True, st_found_value = True,
         st_row_values =
           [\<lparr> cvalue = str ''0.50'', cbasic = True, cdiluted = True, cgaap = True \<rparr>] \<rparr>"
proof -
  have l: "(0::nat) < length label_gap_value" by (simp add: label_gap_value_def)
  from stitch_advances [OF l] l show ?thesis
    by (simp only: stitch_spec_label_gap_value simp_thms)
qed

lemma select_eps_value_inv:
  assumes "select_eps_value rvs rt ti = Some occ"
  shows "all_values occ \<noteq> [] \<and> value_str occ \<in> set (all_values occ)"
proof -
  have ne: "rvs \<noteq> []" using assms by (auto simp: select_eps_value_def)
  from select_eps_value_eq [OF ne, of rt ti] assms
  have "all_values occ = map cvalue rvs" "value_str occ = cvalue (preferred rvs)"
    by auto
  with ne preferred_in_set [OF ne] show ?thesis by auto
qed

lemma process_row_inv:
  "process_row tidx rows i = Some occ \<Longrightarrow>
     all_values occ \<noteq> [] \<and> value_str occ \<in> set (all_values occ)"
  by (auto simp: process_row_def Let_def split: if_splits dest: select_eps_value_inv)

lemma in_map_filterD: "y \<in> set (List.map_filter f xs) \<Longrightarrow> \<exists>x. f x = Some y"
  by (induction xs) (auto split: option.splits)

lemma scan_table_inv:
  "occ \<in> set (scan_table tidx rows) \<Longrightarrow>
     all_values occ \<noteq> [] \<and> value_str occ \<in> set (all_values occ)"
  by (auto simp: scan_table_def dest!: in_map_filterD dest: process_row_inv)

text \<open>
  C10. Every occurrence that \<open>extract_eps_from_filing\<close> returns for a document has a
  non-empty \<open>all_values\<close> list, and its value is an element of that list.
\<close>

theorem extract_values_gathered:
  "\<forall>occ \<in> set (extract_eps_from_filing doc).
     all_values occ \<noteq> [] \<and> value_str occ \<in> set (all_values occ)"
  by (auto simp: extract_eps_from_filing_def dest: scan_table_inv)

lemma label_then_value_result:
  "extract_eps_from_filing [label_then_value] =
     [\<lparr> table_idx = 0, row_text = str ''basic earnings per share'', basic = False,
        diluted = False, gaap = True, value_str = str ''1.25'', all_values = [str ''1.25''] \<rparr>]"
  by (simp add: text_defs regex_defs normalizer_defs classifier_defs label_then_value_def
       extract_eps_from_filing_def scan_table_def process_row_def stitch_def norm_row_text_def
       make_candidate_def select_eps_value_def advance_rows.simps)

theorem extract_values_gathered_witness:
  "extract_eps_from_filing [label_then_value] =
     [\<lparr> table_idx = 0, row_text = str ''basic earnings per share'', basic = False,
        diluted = False, gaap = True, value_str = str ''1.25'', all_values = [str ''1.25''] \<rparr>]
   \<and> [str ''1.25''] \<noteq> []
   \<and> str ''1.25'' \<in> set [str ''1.25'']"
  using extract_values_gathered [of "[label_then_value]"] label_then_value_result by simp


section \<open>Properties of the Final EPS Resolver\<close>

lemma py_startswith_iff: "py_startswith p s = (\<exists>b. s = p @ b)"
  by (induction p s rule: py_startswith.induct) auto

lemma py_in_iff: "py_in w s = occurs_in w s"
proof (induction s)
  case Nil
  then show ?case by (auto simp: occurs_in_def)
next
  case (Cons c cs)
  show ?case
  proof
    assume "py_in w (c # cs)"
    then consider "py_startswith w (c # cs)" | "py_in w cs" by auto
    then show "occurs_in w (c # cs)"
    proof cases
      case 1
      then obtain b where "c # cs = w @ b" by (auto simp: py_startswith_iff)
      then have "c # cs = [] @ w @ b" by simp
      then show ?thesis unfolding occurs_in_def by blast
    next
      case 2
      then obtain a b where "cs = a @ w @ b" using Cons by (auto simp: occurs_in_def)
      then have "c # cs = (c # a) @ w @ b" by simp
      then show ?thesis unfolding occurs_in_def by blast
    qed
  next
    assume "occurs_in w (c # cs)"
    then obtain a b where ab: "c # cs = a @ w @ b" by (auto simp: occurs_in_def)
    show "py_in w (c # cs)"
    proof (cases a)
      case Nil
      with ab have "py_startswith w (c # cs)" by (auto simp: py_startswith_iff)
      then show ?thesis by simp
    next
      case (Cons x xs)
      with ab have "cs = xs @ w @ b" by simp
      then have "occurs_in w cs" unfolding occurs_in_def by blast
      with Cons.IH show ?thesis by simp
    qed
  qed
qed

text \<open>
  The row text of every occurrence that the aggregator produces is in lower case already,
  so lower-casing it in \<open>get_priority\<close> changes nothing there.
\<close>

lemma lower_cp_idem: "lower_cp (lower_cp c) = lower_cp c"
  by (simp add: lower_cp_def)

lemma set_py_strip: "set (py_strip s) \<subseteq> set s"
proof -
  have "set (py_strip s) = set (dropWhile py_isspace (rev (dropWhile py_isspace s)))"
    by (simp add: py_strip_def)
  also have "\<dots> \<subseteq> set (rev (dropWhile py_isspace s))"
    by (auto dest: set_dropWhileD)
  also have "\<dots> \<subseteq> set s"
    by (auto dest: set_dropWhileD)
  finally show ?thesis .
qed

lemma norm_row_text_lower:
  "c \<in> set (norm_row_text r) \<Longrightarrow> lower_cp c = c"
proof -
  assume "c \<in> set (norm_row_text r)"
  then have "c \<in> set (py_strip (py_lower (get_text r)))"
    by (simp add: norm_row_text_def py_remove_def)
  then have "c \<in> set (py_lower (get_text r))"
    using set_py_strip by blast
  then show ?thesis
    by (auto simp: py_lower_def lower_cp_idem)
qed

lemma process_row_row_text:
  assumes "process_row tidx rows i = Some occ"
  shows "row_text occ = take 100 (norm_row_text (rows ! i))"
proof -
  from assms have
    sel: "select_eps_value (st_row_values (stitch rows i)) (norm_row_text (rows ! i)) tidx
            = Some occ"
    and ne: "st_row_values (stitch rows i) \<noteq> []"
    by (auto simp: process_row_def Let_def split: if_splits)
  from select_eps_value_eq [OF ne, of "norm_row_text (rows ! i)" tidx] sel
  show ?thesis by auto
qed

lemma extracted_row_text_lower:
  assumes "occ \<in> set (extract_eps_from_filing doc)"
  shows "py_lower (row_text occ) = row_text occ"
proof -
  from assms obtain tidx rows where "occ \<in> set (scan_table tidx rows)"
    by (auto simp: extract_eps_from_filing_def)
  then obtain i where "process_row tidx rows i = Some occ"
    by (auto simp: scan_table_def dest!: in_map_filterD)
  then have rt: "row_text occ = take 100 (norm_row_text (rows ! i))"
    by (rule process_row_row_text)
  have "\<forall>c \<in> set (row_text occ). lower_cp c = c"
    unfolding rt by (auto dest: in_set_takeD norm_row_text_lower)
  then show ?thesis
    by (simp add: py_lower_def map_idI)
qed

text \<open>
  C8. The score of an occurrence is the sum of four terms: 100 if its basic flag is set;
  50 if its gaap flag is set; 30 if \<open>basic\<close> appears in its row text, else 20 if
  \<open>diluted\<close> appears (the row text is compared in lower case, as the code does); and
  -1000 if its value parses as a float that is not within -100 and 100, nothing if the
  value does not parse.
\<close>

theorem get_priority_sum:
  "get_priority F e =
     (if basic e then 100 else 0)
     + (if gaap e then 50 else 0)
     + (if occurs_in (str ''basic'') (py_lower (row_text e)) then 30
        else if occurs_in (str ''diluted'') (py_lower (row_text e)) then 20 else 0)
     + (case float_parse F (value_str e) of
          None \<Rightarrow> 0
        | Some x \<Rightarrow> if int_le_float F (- 100) x \<and> float_le_int F x 100 then 0 else - 1000)"
  by (simp add: get_priority_def Let_def py_in_iff split: option.split)









end
